theory Spec2Isabelle
  imports Main "HOL-Library.Word" "HOL-Library.AList"
begin

section \<open>Python values used by \<open>osrc_download.py\<close>\<close>

text \<open>
  A Python \<open>str\<close> is a sequence of Unicode code points, a \<open>bytes\<close> object a sequence of
  octets. String literals of the script are written \<open>str ''...''\<close>.
\<close>

type_synonym pystr = "nat list"
type_synonym byte = "8 word"
type_synonym bytes = "byte list"

definition str :: "string \<Rightarrow> pystr" where
  "str s = map of_char s"

text \<open>The exceptions the script can meet. \<open>exit(n)\<close> is the outcome \<open>Exit n\<close> below.\<close>

datatype exc =
    IndexError | KeyError | TypeError | ValueError | NameError | UnicodeEncodeError
  | KeyboardInterrupt | OSError | FileNotFoundError | RequestException

definition bind_exc :: "exc + 'a \<Rightarrow> ('a \<Rightarrow> exc + 'b) \<Rightarrow> exc + 'b" where
  "bind_exc m f = (case m of Inl e \<Rightarrow> Inl e | Inr x \<Rightarrow> f x)"

text \<open>\<open>xs[i]\<close> for a literal index \<open>i \<ge> 0\<close>: IndexError when out of range.\<close>

definition subscript :: "'a list \<Rightarrow> nat \<Rightarrow> exc + 'a" where
  "subscript xs i = (if i < length xs then Inr (xs ! i) else Inl IndexError)"

subsection \<open>String methods\<close>

text \<open>
  \<open>str.isspace\<close> on one code point: the set that \<open>str.strip()\<close> removes and that
  \<open>\S\<close> of module \<open>re\<close> excludes.
\<close>

definition is_space :: "nat \<Rightarrow> bool" where
  "is_space c = ((9 \<le> c \<and> c \<le> 13) \<or> (28 \<le> c \<and> c \<le> 32) \<or> c = 133 \<or> c = 160
     \<or> c = 5760 \<or> (8192 \<le> c \<and> c \<le> 8202) \<or> c = 8232 \<or> c = 8233 \<or> c = 8239
     \<or> c = 8287 \<or> c = 12288)"

text \<open>\<open>s.strip()\<close>\<close>

definition strip :: "pystr \<Rightarrow> pystr" where
  "strip s = rev (dropWhile is_space (rev (dropWhile is_space s)))"

text \<open>
  Cutting a string at every code point that satisfies \<open>P\<close>; the fields between the cuts
  are kept, empty ones too, so there is always at least one field.
\<close>

fun split_where :: "(nat \<Rightarrow> bool) \<Rightarrow> pystr \<Rightarrow> pystr list" where
  "split_where P [] = [] # []"
| "split_where P (c # cs) =
     (if P c then [] # split_where P cs
      else (case split_where P cs of
              [] \<Rightarrow> [c] # []
            | f # fs \<Rightarrow> (c # f) # fs))"

text \<open>\<open>s.split(sep)\<close> for a separator of one code point.\<close>

definition split :: "pystr \<Rightarrow> nat \<Rightarrow> pystr list" where
  "split s sep = split_where (\<lambda>c. c = sep) s"

text \<open>\<open>s.replace(old, new)\<close> for \<open>old\<close> of one code point.\<close>

definition replace :: "pystr \<Rightarrow> nat \<Rightarrow> pystr \<Rightarrow> pystr" where
  "replace s old new = concat (map (\<lambda>c. if c = old then new else [c]) s)"

text \<open>\<open>" ".join(xs)\<close>\<close>

fun join_space :: "pystr list \<Rightarrow> pystr" where
  "join_space [] = []"
| "join_space [x] = x"
| "join_space (x # y # ys) = x @ [32] @ join_space (y # ys)"

text \<open>\<open>s.encode("utf-8")\<close>: UnicodeEncodeError on a surrogate (errors are strict).\<close>

definition encode_point :: "nat \<Rightarrow> exc + bytes" where
  "encode_point c =
     (if c < 128 then Inr [word_of_nat c]
      else if c < 2048 then Inr [word_of_nat (192 + c div 64), word_of_nat (128 + c mod 64)]
      else if 55296 \<le> c \<and> c \<le> 57343 then Inl UnicodeEncodeError
      else if c < 65536 then
        Inr [word_of_nat (224 + c div 4096), word_of_nat (128 + c div 64 mod 64),
             word_of_nat (128 + c mod 64)]
      else if c < 1114112 then
        Inr [word_of_nat (240 + c div 262144), word_of_nat (128 + c div 4096 mod 64),
             word_of_nat (128 + c div 64 mod 64), word_of_nat (128 + c mod 64)]
      else Inl UnicodeEncodeError)"

fun encode_utf8 :: "pystr \<Rightarrow> exc + bytes" where
  "encode_utf8 [] = Inr []"
| "encode_utf8 (c # cs) =
     bind_exc (encode_point c) (\<lambda>b. bind_exc (encode_utf8 cs) (\<lambda>bs. Inr (b @ bs)))"

text \<open>
  \<open>urllib.parse.quote(s)\<close> with the default \<open>safe='/'\<close>: the UTF-8 octets of \<open>s\<close>,
  each kept when it is an unreserved character or \<open>/\<close> and written \<open>%XX\<close> otherwise.
\<close>

definition hex_digit :: "nat \<Rightarrow> nat" where
  "hex_digit d = (if d < 10 then 48 + d else 55 + d)"

definition quote_byte :: "byte \<Rightarrow> pystr" where
  "quote_byte b =
     (let c = unat b in
      if (65 \<le> c \<and> c \<le> 90) \<or> (97 \<le> c \<and> c \<le> 122) \<or> (48 \<le> c \<and> c \<le> 57)
         \<or> c \<in> set (str ''_.-~/'')
      then [c]
      else [37, hex_digit (c div 16), hex_digit (c mod 16)])"

definition quote :: "pystr \<Rightarrow> exc + pystr" where
  "quote s = bind_exc (encode_utf8 s) (\<lambda>bs. Inr (concat (map quote_byte bs)))"

text \<open>\<open>str(n)\<close> for an index \<open>n \<ge> 0\<close>, as the f-string of the listing formats it.\<close>

fun digits :: "nat \<Rightarrow> nat \<Rightarrow> pystr" where
  "digits 0 n = []"
| "digits (Suc fuel) n =
     (if n < 10 then [48 + n] else digits fuel (n div 10) @ [48 + n mod 10])"

definition str_of_nat :: "nat \<Rightarrow> pystr" where
  "str_of_nat n = digits (Suc n) n"

subsection \<open>Dictionaries\<close>

text \<open>
  The dictionaries of the script hold strings and, for the download token, bytes. A
  dictionary keeps its keys in insertion order (the order of the form fields posted),
  so it is an association list; \<open>d[k] = v\<close> is \<open>AList.update k v d\<close>, which replaces the
  value of a key that is present and appends a new key otherwise.
\<close>

datatype pyval = Str pystr | Bytes bytes

type_synonym dict = "(pystr \<times> pyval) list"

definition getitem :: "dict \<Rightarrow> pystr \<Rightarrow> exc + pyval" where
  "getitem d k = (case map_of d k of None \<Rightarrow> Inl KeyError | Some v \<Rightarrow> Inr v)"

definition setitem :: "dict \<Rightarrow> pystr \<Rightarrow> pyval \<Rightarrow> dict" where
  "setitem d k v = AList.update k v d"

section \<open>Parsed pages (BeautifulSoup)\<close>

text \<open>
  A parsed document is a tree of tags and strings; the \<open>BeautifulSoup\<close> object itself is
  the root tag. A tag has a name, its attributes (the dictionary of the tag, as an
  association list) and its contents. The attribute
  \<open>class\<close> is kept as written; its whitespace-separated tokens are what the parser
  stores and what \<open>class_=\<close> is matched against.
\<close>

datatype node =
    Tag (name: pystr) (attrs: "(pystr \<times> pystr) list") (contents: "node list")
  | NavigableString pystr

text \<open>\<open>tag.descendants\<close>: every node below the tag, in document order.\<close>

fun descendants :: "node \<Rightarrow> node list" where
  "descendants (NavigableString s) = []"
| "descendants (Tag n a cs) = concat (map (\<lambda>c. c # descendants c) cs)"

text \<open>\<open>tag.text\<close>: the strings below the tag, concatenated.\<close>

fun get_text :: "node \<Rightarrow> pystr" where
  "get_text (NavigableString s) = s"
| "get_text (Tag n a cs) = concat (map get_text cs)"

text \<open>\<open>tag[key]\<close>: KeyError when the attribute is absent.\<close>

definition attr :: "node \<Rightarrow> pystr \<Rightarrow> pystr option" where
  "attr x k = (case x of Tag n a cs \<Rightarrow> map_of a k | NavigableString s \<Rightarrow> None)"

definition tag_getitem :: "node \<Rightarrow> pystr \<Rightarrow> exc + pystr" where
  "tag_getitem x k = (case attr x k of None \<Rightarrow> Inl KeyError | Some v \<Rightarrow> Inr v)"

definition is_tag :: "node \<Rightarrow> bool" where
  "is_tag x = (case x of Tag n a cs \<Rightarrow> True | NavigableString s \<Rightarrow> False)"

definition has_name :: "pystr \<Rightarrow> node \<Rightarrow> bool" where
  "has_name n x = (case x of Tag m a cs \<Rightarrow> m = n | NavigableString s \<Rightarrow> False)"

text \<open>An attribute filter \<open>key=value\<close> on an attribute with one value: exact match.\<close>

definition has_attr :: "pystr \<Rightarrow> pystr \<Rightarrow> node \<Rightarrow> bool" where
  "has_attr k v x = (is_tag x \<and> attr x k = Some v)"

text \<open>
  The filter \<open>class_=c\<close> on the attribute \<open>class\<close>, which has several values. When the
  tag has the attribute, one of its tokens, or the tokens joined by a space, must equal
  \<open>c\<close>. When the tag has no such attribute, the releases of Beautiful Soup differ, and
  the script pins none: through 4.12 an absent attribute matches the empty string (and
  only it), from 4.13 it matches no string. Which of the two holds is the parameter
  \<open>absent_matches\<close>.
\<close>

definition class_tokens :: "pystr \<Rightarrow> pystr list" where
  "class_tokens v = filter (\<lambda>f. f \<noteq> []) (split_where is_space v)"

definition has_class :: "bool \<Rightarrow> pystr \<Rightarrow> node \<Rightarrow> bool" where
  "has_class absent_matches c x =
     (is_tag x \<and>
      (case attr x (str ''class'') of
         None \<Rightarrow> absent_matches \<and> c = []
       | Some v \<Rightarrow> c \<in> set (class_tokens v) \<or> join_space (class_tokens v) = c))"

text \<open>\<open>tag.find_all(...)\<close> with the filter \<open>P\<close>, and \<open>tag.find(...)\<close>, its first result.\<close>

definition find_all :: "(node \<Rightarrow> bool) \<Rightarrow> node \<Rightarrow> node list" where
  "find_all P x = filter P (descendants x)"

definition find_first :: "(node \<Rightarrow> bool) \<Rightarrow> node \<Rightarrow> node option" where
  "find_first P x = (case find_all P x of [] \<Rightarrow> None | y # ys \<Rightarrow> Some y)"

section \<open>The search client (lines 57 to 75)\<close>

definition baseURL :: pystr where
  "baseURL = str ''https://opensource.samsung.com''"

definition searchURL :: pystr where
  "searchURL = baseURL @ str ''/uploadSearch?searchValue=''"

definition modalURL :: pystr where
  "modalURL = baseURL @ str ''/downSrcMPop?uploadId=''"

definition downSrcURL :: pystr where
  "downSrcURL = baseURL @ str ''/downSrcCode''"

text \<open>The body of the loop over the rows: one dictionary per row.\<close>

definition row_data :: "node \<Rightarrow> exc + dict" where
  "row_data row =
     (let dataSearchTable = find_all (has_name (str ''td'')) row in
      bind_exc (subscript dataSearchTable 1) (\<lambda>td1.
      let sourceModel = strip (get_text td1) in
      bind_exc (subscript dataSearchTable 2) (\<lambda>td2.
      let sourceVersion = strip (get_text td2) in
      bind_exc (subscript dataSearchTable 5) (\<lambda>td5.
      case find_first (has_name (str ''a'')) td5 of
        None \<Rightarrow> Inl TypeError
      | Some a \<Rightarrow>
          bind_exc (tag_getitem a (str ''href'')) (\<lambda>href.
          bind_exc (subscript (split href 39) 1) (\<lambda>sourceUploadId.
          Inr [(str ''uploadId'', Str sourceUploadId),
               (str ''downloadPurpose'', Str (str ''AOP'')),
               (str ''sourceVersion'', Str sourceVersion),
               (str ''sourceModel'', Str sourceModel)]))))))"

text \<open>The loop: rows in order, stopping at the first row that raises.\<close>

fun rows_data :: "node list \<Rightarrow> exc + dict list" where
  "rows_data [] = Inr []"
| "rows_data (row # rows) =
     bind_exc (row_data row) (\<lambda>d. bind_exc (rows_data rows) (\<lambda>ds. Inr (d # ds)))"

text \<open>
  Lines 58 to 75 on the parsed search page, under a library whose \<open>class_=\<close> filter
  treats an absent attribute as \<open>absent_matches\<close> says.
\<close>

definition search_rows :: "bool \<Rightarrow> node \<Rightarrow> exc + node list" where
  "search_rows absent_matches parseSearchContent =
     (let searchTable =
            find_all (\<lambda>x. has_name (str ''table'') x
                          \<and> has_class absent_matches (str ''tbl-downList'') x)
              parseSearchContent in
      bind_exc (subscript searchTable 0) (\<lambda>table.
      Inr (find_all (\<lambda>x. has_name (str ''tr'') x \<and> has_class absent_matches [] x) table)))"

definition search_data :: "bool \<Rightarrow> node \<Rightarrow> exc + dict list" where
  "search_data absent_matches parseSearchContent =
     bind_exc (search_rows absent_matches parseSearchContent) rows_data"

section \<open>The program state and its environment\<close>

text \<open>
  What the script does to the outside is recorded in order: the requests sent, the lines
  printed, and the operations on the progress bar and on the destination file.
\<close>

datatype event =
    HttpGet pystr
  | HttpPost pystr dict dict
  | Print pystr
  | PrintJsonDumps "dict list"
  | BarCreate int
  | BarUpdate nat
  | BarClose
  | FileOpen pystr
  | FileWrite pystr bytes
  | FileClose pystr
  | FileRemove pystr

text \<open>The \<open>tqdm\<close> progress bar: its total, its running count \<open>n\<close>, and whether it is closed.\<close>

record bar =
  bar_total :: int
  bar_n :: nat
  bar_closed :: bool

text \<open>
  The state: the record of events, the files of the working directory, and the variable
  \<open>progressBar\<close> (\<open>None\<close> while it is unbound).
\<close>

record state =
  events :: "event list"
  files :: "pystr \<rightharpoonup> bytes"
  progressBar :: "bar option"

definition init_state :: "(pystr \<rightharpoonup> bytes) \<Rightarrow> state" where
  "init_state fs = \<lparr>events = [], files = fs, progressBar = None\<rparr>"

definition emit :: "event \<Rightarrow> state \<Rightarrow> state" where
  "emit e s = s\<lparr>events := events s @ [e]\<rparr>"

text \<open>
  One turn of the loop over \<open>requestDown.iter_content(...)\<close>, as the environment decides it:
  the iterator yields a chunk, and then \<open>file.write\<close> and \<open>progressBar.update\<close> each either
  succeed or raise; or the iterator itself raises. The end of the list is the end of the
  body.
\<close>

datatype step =
    Chunk bytes "exc option" "exc option"
  | Broken exc

text \<open>
  The response of the download request: its headers (a lookup that ignores case is the
  library's business) and its body as \<open>iter_content(chunk_size)\<close> delivers it.
\<close>

record response =
  headers :: "pystr \<rightharpoonup> pystr"
  iter_content :: "nat \<Rightarrow> step list"

text \<open>
  The environment: \<open>session.get(url)\<close> followed by the parser of the page, \<open>session.post\<close>,
  the builtin \<open>int\<close> on a header value, whether \<open>open(name, "wb")\<close> raises, and how the
  installed Beautiful Soup matches \<open>class_=\<close> against a tag without the attribute.
\<close>

record world =
  session_get :: "pystr \<Rightarrow> exc + node"
  session_post :: "pystr \<Rightarrow> dict \<Rightarrow> dict \<Rightarrow> exc + response"
  int_of :: "pystr \<Rightarrow> exc + int"
  open_fault :: "pystr \<Rightarrow> exc option"
  absent_class_matches :: bool

text \<open>How the process ends: an exit status, or an exception nobody catches.\<close>

datatype outcome = Exit int | Uncaught exc

text \<open>The parsed command line: \<open>command\<close> is \<open>None\<close> when no subcommand is given.\<close>

datatype command = Search bool | Download pystr

record args =
  model :: pystr
  command :: "command option"

section \<open>Command \<open>search\<close> (lines 79 to 84)\<close>

text \<open>What an f-string writes for a value: a string as it is, bytes as their \<open>repr\<close>.\<close>

definition repr_byte :: "nat \<Rightarrow> byte \<Rightarrow> pystr" where
  "repr_byte q b =
     (let c = unat b in
      if c = q \<or> c = 92 then [92, c]
      else if c = 9 then [92, 116]
      else if c = 10 then [92, 110]
      else if c = 13 then [92, 114]
      else if c < 32 \<or> 127 \<le> c then
        [92, 120, (if c div 16 < 10 then 48 + c div 16 else 87 + c div 16),
                  (if c mod 16 < 10 then 48 + c mod 16 else 87 + c mod 16)]
      else [c])"

definition repr_bytes :: "bytes \<Rightarrow> pystr" where
  "repr_bytes b =
     (let q = (if 39 \<in> set (map unat b) \<and> 34 \<notin> set (map unat b) then 34 else 39)
      in [98, q] @ concat (map (repr_byte q) b) @ [q])"

fun format_val :: "pyval \<Rightarrow> pystr" where
  "format_val (Str s) = s"
| "format_val (Bytes b) = repr_bytes b"

definition listing_line :: "nat \<Rightarrow> dict \<Rightarrow> exc + pystr" where
  "listing_line index data =
     bind_exc (getitem data (str ''sourceModel'')) (\<lambda>m.
     bind_exc (getitem data (str ''sourceVersion'')) (\<lambda>v.
     Inr (str ''['' @ str_of_nat (index + 1) @ str ''] Model: '' @ format_val m
          @ str '' | Version: '' @ format_val v)))"

fun print_listing :: "nat \<Rightarrow> dict list \<Rightarrow> state \<Rightarrow> exc option \<times> state" where
  "print_listing index [] s = (None, s)"
| "print_listing index (data # rest) s =
     (case listing_line index data of
        Inl e \<Rightarrow> (Some e, s)
      | Inr l \<Rightarrow> print_listing (Suc index) rest (emit (Print l) s))"

definition is_bytes :: "pyval \<Rightarrow> bool" where
  "is_bytes v = (case v of Bytes b \<Rightarrow> True | Str s \<Rightarrow> False)"

definition search_cmd :: "bool \<Rightarrow> dict list \<Rightarrow> state \<Rightarrow> exc option \<times> state" where
  "search_cmd json dataList s =
     (if json then
        (if \<exists>d \<in> set dataList. \<exists>kv \<in> set d. is_bytes (snd kv) then (Some TypeError, s)
         else (None, emit (PrintJsonDumps dataList) s))
      else print_listing 0 dataList s)"

section \<open>Command \<open>download\<close> (lines 88 to 130)\<close>

text \<open>Line 48: the first item whose \<open>sourceVersion\<close> equals the version, else \<open>None\<close>.\<close>

fun find_source_by_sourcever :: "dict list \<Rightarrow> pystr \<Rightarrow> exc + dict option" where
  "find_source_by_sourcever [] version = Inr None"
| "find_source_by_sourcever (item # rest) version =
     bind_exc (getitem item (str ''sourceVersion'')) (\<lambda>v.
     if v = Str version then Inr (Some item)
     else find_source_by_sourcever rest version)"

text \<open>Lines 99 to 101: the three values of the modal page, stored into the dictionary.\<close>

definition resolve :: "dict \<Rightarrow> node \<Rightarrow> exc + dict" where
  "resolve selectedSource parseModalRequest =
     bind_exc (subscript (find_all (\<lambda>x. has_name (str ''input'') x
                                  \<and> has_attr (str ''type'') (str ''checkbox'') x)
                        parseModalRequest) 1) (\<lambda>checkbox.
     bind_exc (tag_getitem checkbox (str ''id'')) (\<lambda>attachIds.
     let d1 = setitem selectedSource (str ''attachIds'') (Str attachIds) in
     bind_exc (subscript (find_all (has_attr (str ''name'') (str ''_csrf'')) parseModalRequest) 0)
       (\<lambda>field.
     bind_exc (tag_getitem field (str ''value'')) (\<lambda>csrf.
     let d2 = setitem d1 (str ''_csrf'') (Str csrf) in
     bind_exc (subscript (find_all (has_attr (str ''id'') (str ''token'')) parseModalRequest) 0)
       (\<lambda>element.
     bind_exc (tag_getitem element (str ''value'')) (\<lambda>token.
     bind_exc (encode_utf8 token) (\<lambda>b.
     Inr (setitem d2 (str ''token'') (Bytes b)))))))))"

definition requestHeader :: dict where
  "requestHeader =
     [(str ''Content-Type'', Str (str ''application/x-www-form-urlencoded'')),
      (str ''User-Agent'',
       Str (str ''Mozilla/5.0 (Windows NT 10.0; Win64; x64) AppleWebKit/537.36 (KHTML, like Gecko) Chrome/99.0.4844.74 Safari/537.36 Edg/99.0.1150.55''))]"

text \<open>Line 109, on the value of the header \<open>Content-Disposition\<close>.\<close>

definition file_name :: "pystr \<Rightarrow> exc + pystr" where
  "file_name disposition =
     bind_exc (subscript (split disposition 61) 1) (\<lambda>field.
     Inr (replace (replace (drop 1 field) 34 []) 59 []))"

definition header :: "response \<Rightarrow> pystr \<Rightarrow> exc + pystr" where
  "header r k = (case headers r k of None \<Rightarrow> Inl KeyError | Some v \<Rightarrow> Inr v)"

text \<open>The progress bar and the file operations, each recorded as it happens.\<close>

definition bar_update :: "nat \<Rightarrow> state \<Rightarrow> state" where
  "bar_update k s =
     emit (BarUpdate k)
       (s\<lparr>progressBar := map_option (\<lambda>b. b\<lparr>bar_n := bar_n b + k\<rparr>) (progressBar s)\<rparr>)"

definition bar_close :: "state \<Rightarrow> state" where
  "bar_close s =
     emit BarClose
       (s\<lparr>progressBar := map_option (\<lambda>b. b\<lparr>bar_closed := True\<rparr>) (progressBar s)\<rparr>)"

definition file_open :: "pystr \<Rightarrow> state \<Rightarrow> state" where
  "file_open f s = emit (FileOpen f) (s\<lparr>files := (files s)(f \<mapsto> [])\<rparr>)"

definition file_write :: "pystr \<Rightarrow> bytes \<Rightarrow> state \<Rightarrow> state" where
  "file_write f c s =
     emit (FileWrite f c)
       (s\<lparr>files := (files s)(f \<mapsto> (case files s f of None \<Rightarrow> c | Some old \<Rightarrow> old @ c))\<rparr>)"

definition file_remove :: "pystr \<Rightarrow> state \<Rightarrow> state" where
  "file_remove f s = emit (FileRemove f) (s\<lparr>files := (files s)(f := None)\<rparr>)"

text \<open>
  Lines 116 to 118: the loop over the chunks. The result is the exception that ended
  the loop, if any.
\<close>

fun stream_loop :: "pystr \<Rightarrow> step list \<Rightarrow> state \<Rightarrow> exc option \<times> state" where
  "stream_loop f [] s = (None, s)"
| "stream_loop f (Broken e # rest) s = (Some e, s)"
| "stream_loop f (Chunk chunk write_fault update_fault # rest) s =
     (case write_fault of
        Some e \<Rightarrow> (Some e, s)
      | None \<Rightarrow>
          (let s1 = file_write f chunk s in
           case update_fault of
             Some e \<Rightarrow> (Some e, s1)
           | None \<Rightarrow> stream_loop f rest (bar_update (length chunk) s1)))"

text \<open>
  Lines 121 to 130: the two handlers, which differ in the message and the exit status.
  \<open>os.remove\<close> raises when the file is not there, and nothing catches that.
\<close>

definition handler :: "exc \<Rightarrow> pystr \<Rightarrow> state \<Rightarrow> outcome \<times> state" where
  "handler e sourceFileName s =
     (case progressBar s of
        None \<Rightarrow> (Uncaught NameError, s)
      | Some b \<Rightarrow>
          (let s1 = bar_close s in
           case files s1 sourceFileName of
             None \<Rightarrow> (Uncaught FileNotFoundError, s1)
           | Some content \<Rightarrow>
               (let s2 = file_remove sourceFileName s1 in
                if e = KeyboardInterrupt
                then (Exit 130, emit (Print (str ''Interrupted!'')) s2)
                else (Exit 1, emit (Print (str ''Error!'')) s2))))"

text \<open>Line 113: the message printed before the transfer.\<close>

definition downloading_message :: "pystr \<Rightarrow> pyval \<Rightarrow> pystr" where
  "downloading_message sourceFileName v =
     str ''Downloading '' @ sourceFileName @ str '' ('' @ format_val v
       @ str ''), please do not terminate the script!''"

text \<open>Lines 112 to 130: the \<open>try\<close> statement.\<close>

definition stream_to_file ::
  "response \<Rightarrow> pystr \<Rightarrow> int \<Rightarrow> dict \<Rightarrow> world \<Rightarrow> state \<Rightarrow> outcome \<times> state" where
  "stream_to_file requestDown sourceFileName sourceSize selectedSource w s =
     (case getitem selectedSource (str ''sourceVersion'') of
        Inl e \<Rightarrow> handler e sourceFileName s
      | Inr v \<Rightarrow>
          (let s1 = emit (Print (downloading_message sourceFileName v)) s;
               s2 = emit (BarCreate sourceSize)
                      (s1\<lparr>progressBar :=
                            Some \<lparr>bar_total = sourceSize, bar_n = 0, bar_closed = False\<rparr>\<rparr>)
           in case open_fault w sourceFileName of
                Some e \<Rightarrow> handler e sourceFileName s2
              | None \<Rightarrow>
                  (let s3 = file_open sourceFileName s2 in
                   case stream_loop sourceFileName
                          (iter_content requestDown (512 * 1024)) s3 of
                     (Some e, s4) \<Rightarrow>
                       handler e sourceFileName (emit (FileClose sourceFileName) s4)
                   | (None, s4) \<Rightarrow>
                       (Exit 0,
                        emit (Print (str ''Done!''))
                          (bar_close (emit (FileClose sourceFileName) s4))))))"

text \<open>Lines 96 to 130, once a source is selected.\<close>

definition download_source :: "dict \<Rightarrow> world \<Rightarrow> state \<Rightarrow> outcome \<times> state" where
  "download_source selectedSource w s =
     (case getitem selectedSource (str ''uploadId'') of
        Inl e \<Rightarrow> (Uncaught e, s)
      | Inr (Bytes b) \<Rightarrow> (Uncaught TypeError, s)
      | Inr (Str uploadId) \<Rightarrow>
          (let s1 = emit (HttpGet (modalURL @ uploadId)) s in
           case session_get w (modalURL @ uploadId) of
             Inl e \<Rightarrow> (Uncaught e, s1)
           | Inr parseModalRequest \<Rightarrow>
               (case resolve selectedSource parseModalRequest of
                  Inl e \<Rightarrow> (Uncaught e, s1)
                | Inr authorized \<Rightarrow>
                    (let s2 = emit (HttpPost downSrcURL authorized requestHeader) s1 in
                     case session_post w downSrcURL authorized requestHeader of
                       Inl e \<Rightarrow> (Uncaught e, s2)
                     | Inr requestDown \<Rightarrow>
                         (case bind_exc (header requestDown (str ''Content-Disposition''))
                                 file_name of
                            Inl e \<Rightarrow> (Uncaught e, s2)
                          | Inr sourceFileName \<Rightarrow>
                              (case bind_exc (header requestDown (str ''Content-Length''))
                                      (int_of w) of
                                 Inl e \<Rightarrow> (Uncaught e, s2)
                               | Inr sourceSize \<Rightarrow>
                                   stream_to_file requestDown sourceFileName sourceSize
                                     authorized w s2))))))"

text \<open>
  Lines 88 to 92: the selection. \<open>not selectedSource\<close> holds for \<open>None\<close> and for an empty
  dictionary.
\<close>

definition invalid_version :: "pystr \<Rightarrow> state \<Rightarrow> outcome \<times> state" where
  "invalid_version version s =
     (Exit 1, emit (Print (str ''Invalid source version: '' @ version)) s)"

definition download_cmd :: "dict list \<Rightarrow> pystr \<Rightarrow> world \<Rightarrow> state \<Rightarrow> outcome \<times> state" where
  "download_cmd dataList version w s =
     (case find_source_by_sourcever dataList version of
        Inl e \<Rightarrow> (Uncaught e, s)
      | Inr None \<Rightarrow> invalid_version version s
      | Inr (Some selectedSource) \<Rightarrow>
          if selectedSource = [] then invalid_version version s
          else download_source selectedSource w s)"

section \<open>The whole script\<close>

definition main :: "args \<Rightarrow> world \<Rightarrow> state \<Rightarrow> outcome \<times> state" where
  "main a w s =
     (case quote (model a) of
        Inl e \<Rightarrow> (Uncaught e, s)
      | Inr q \<Rightarrow>
          (let s1 = emit (HttpGet (searchURL @ q)) s in
           case session_get w (searchURL @ q) of
             Inl e \<Rightarrow> (Uncaught e, s1)
           | Inr parseSearchContent \<Rightarrow>
               (case search_data (absent_class_matches w) parseSearchContent of
                  Inl e \<Rightarrow> (Uncaught e, s1)
                | Inr dataList \<Rightarrow>
                    (case command a of
                       None \<Rightarrow> (Exit 0, s1)
                     | Some (Search json) \<Rightarrow>
                         (case search_cmd json dataList s1 of
                            (Some e, s2) \<Rightarrow> (Uncaught e, s2)
                          | (None, s2) \<Rightarrow> (Exit 0, s2))
                     | Some (Download version) \<Rightarrow> download_cmd dataList version w s1))))"

section \<open>The data model of the specification\<close>

text \<open>
  A ReleaseCandidate has an upload id, a source version and a source model; its download
  purpose is the constant \<open>AOP\<close>. \<open>as_dict\<close> is the dictionary that lines 70 to 75 build
  from the three values.
\<close>

datatype release_candidate =
  ReleaseCandidate (uploadId_of: pystr) (sourceVersion_of: pystr) (sourceModel_of: pystr)

fun as_dict :: "release_candidate \<Rightarrow> dict" where
  "as_dict (ReleaseCandidate uploadId sourceVersion sourceModel) =
     [(str ''uploadId'', Str uploadId),
      (str ''downloadPurpose'', Str (str ''AOP'')),
      (str ''sourceVersion'', Str sourceVersion),
      (str ''sourceModel'', Str sourceModel)]"

text \<open>
  The rows that line 60 keeps: \<open>tr\<close> tags whose \<open>class\<close> attribute holds whitespace only
  and, where the library matches an absent attribute, \<open>tr\<close> tags without the attribute.
  A row with a class is never kept.
\<close>

definition blank :: "pystr \<Rightarrow> bool" where
  "blank v = (\<forall>c \<in> set v. is_space c)"

definition selected_row :: "bool \<Rightarrow> node \<Rightarrow> bool" where
  "selected_row absent_matches x =
     (has_name (str ''tr'') x \<and>
      (case attr x (str ''class'') of None \<Rightarrow> absent_matches | Some v \<Rightarrow> blank v))"

text \<open>
  The search as the specification words it: every row of the first table of the class
  gives one candidate.
\<close>

definition spec_search_data :: "bool \<Rightarrow> node \<Rightarrow> exc + dict list" where
  "spec_search_data absent_matches parseSearchContent =
     bind_exc (subscript
                 (find_all (\<lambda>x. has_name (str ''table'') x
                               \<and> has_class absent_matches (str ''tbl-downList'') x)
                    parseSearchContent) 0)
       (\<lambda>table. rows_data (find_all (has_name (str ''tr'')) table))"

text \<open>
  The file name as the specification words it: the second field, without its leading
  character, and without the double quotes and semicolons that surround it
  (\<open>s.strip(chars)\<close>).
\<close>

definition strip_chars :: "nat list \<Rightarrow> pystr \<Rightarrow> pystr" where
  "strip_chars cs s =
     rev (dropWhile (\<lambda>c. c \<in> set cs) (rev (dropWhile (\<lambda>c. c \<in> set cs) s)))"

definition spec_file_name :: "pystr \<Rightarrow> exc + pystr" where
  "spec_file_name disposition =
     bind_exc (subscript (split disposition 61) 1) (\<lambda>field.
     Inr (strip_chars [34, 59] (drop 1 field)))"

text \<open>
  A body that arrives whole: \<open>iter_content(chunk_size=k)\<close> yields it in pieces of \<open>k\<close>
  octets, the last one shorter when \<open>k\<close> does not divide the length, and nothing raises.
\<close>

function iter_chunks :: "nat \<Rightarrow> 'a list \<Rightarrow> 'a list list" where
  "iter_chunks k body =
     (if k = 0 \<or> body = [] then [] else take k body # iter_chunks k (drop k body))"
  by pat_completeness auto
termination
  by (relation "measure (\<lambda>(k, body). length body)") auto

declare iter_chunks.simps [simp del]

definition delivered :: "bytes \<Rightarrow> nat \<Rightarrow> step list" where
  "delivered body k = map (\<lambda>c. Chunk c None None) (iter_chunks k body)"

text \<open>The exception that the environment raises first in the loop, if any.\<close>

fun first_fault :: "step list \<Rightarrow> exc option" where
  "first_fault [] = None"
| "first_fault (Broken e # rest) = Some e"
| "first_fault (Chunk chunk write_fault update_fault # rest) =
     (case write_fault of
        Some e \<Rightarrow> Some e
      | None \<Rightarrow> (case update_fault of Some e \<Rightarrow> Some e | None \<Rightarrow> first_fault rest))"

text \<open>
  Network requests among the events, and the requests that belong to a candidate: the
  GET of its modal page and a POST to the download endpoint whose form starts with the
  four fields of the candidate.
\<close>

fun is_request :: "event \<Rightarrow> bool" where
  "is_request (HttpGet url) = True"
| "is_request (HttpPost url d h) = True"
| "is_request e = False"

fun serves :: "release_candidate \<Rightarrow> event \<Rightarrow> bool" where
  "serves c (HttpGet url) = (url = modalURL @ uploadId_of c)"
| "serves c (HttpPost url d h) = (url = downSrcURL \<and> take 4 d = as_dict c)"
| "serves c e = True"

definition local_only :: "state \<Rightarrow> state \<Rightarrow> bool" where
  "local_only s s' = (\<exists>es. events s' = events s @ es \<and> (\<forall>e \<in> set es. \<not> is_request e))"

definition only_serves :: "release_candidate \<Rightarrow> state \<Rightarrow> state \<Rightarrow> bool" where
  "only_serves c s s' = (\<exists>es. events s' = events s @ es \<and> (\<forall>e \<in> set es. serves c e))"

text \<open>What one row yields when line 64 to 75 succeed on it.\<close>

definition row_yields :: "node \<Rightarrow> dict \<Rightarrow> bool" where
  "row_yields row d =
     (\<exists>cells a href.
        cells = find_all (has_name (str ''td'')) row \<and> 5 < length cells
      \<and> find_first (has_name (str ''a'')) (cells ! 5) = Some a
      \<and> attr a (str ''href'') = Some href \<and> 1 < length (split href 39)
      \<and> d = as_dict (ReleaseCandidate (split href 39 ! 1)
                        (strip (get_text (cells ! 2))) (strip (get_text (cells ! 1)))))"

section \<open>Example inputs\<close>

text \<open>
  A search page with one table of the class; a row has six cells, the model in the
  second, the version in the third and the link in the sixth.
\<close>

definition td_cell :: "pystr \<Rightarrow> node" where
  "td_cell s = Tag (str ''td'') [] [NavigableString s]"

definition example_href :: "pystr \<Rightarrow> pystr" where
  "example_href uploadId =
     str ''javascript:downSrcMPop('' @ [39] @ uploadId @ [39] @ str '');''"

definition example_row :: "(pystr \<times> pystr) list \<Rightarrow> pystr \<Rightarrow> pystr \<Rightarrow> node" where
  "example_row a version uploadId =
     Tag (str ''tr'') a
       [td_cell (str ''1''), td_cell (str '' SM-G960F ''), td_cell version,
        td_cell (str ''Android''), td_cell (str ''x''),
        Tag (str ''td'') [] [Tag (str ''a'') [(str ''href'', example_href uploadId)] []]]"

text \<open>The attributes of a row written \<open><tr class="">\<close>.\<close>

definition blank_class :: "(pystr \<times> pystr) list" where
  "blank_class = [(str ''class'', [])]"

definition example_page :: "node list \<Rightarrow> node" where
  "example_page rows =
     Tag (str ''[document]'') []
       [Tag (str ''table'') [(str ''class'', str ''tbl tbl-downList'')] rows]"

definition empty_page :: node where
  "empty_page = Tag (str ''[document]'') [] []"

definition example_modal :: node where
  "example_modal =
     Tag (str ''[document]'') []
       [Tag (str ''form'') []
          [Tag (str ''input'') [(str ''type'', str ''checkbox''), (str ''id'', str ''all'')] [],
           Tag (str ''input'') [(str ''type'', str ''checkbox''), (str ''id'', str ''777'')] [],
           Tag (str ''input'') [(str ''type'', str ''hidden''), (str ''name'', str ''_csrf''),
                              (str ''value'', str ''c5'')] [],
           Tag (str ''input'') [(str ''type'', str ''hidden''), (str ''id'', str ''token''),
                              (str ''value'', str ''t0'')] []]]"

definition example_candidate :: release_candidate where
  "example_candidate = ReleaseCandidate (str ''56'') (str ''V2'') (str ''SM-G960F'')"

definition example_disposition :: pystr where
  "example_disposition = str ''attachment; filename='' @ [34] @ str ''a;b.zip'' @ [34]"

definition example_response :: "(nat \<Rightarrow> step list) \<Rightarrow> response" where
  "example_response body =
     \<lparr>headers = [str ''Content-Disposition'' \<mapsto> example_disposition,
                 str ''Content-Length'' \<mapsto> str ''3''],
      iter_content = body\<rparr>"

definition example_world :: "node \<Rightarrow> world" where
  "example_world page =
     \<lparr>session_get = (\<lambda>url. Inr page),
      session_post = (\<lambda>url d h. Inl RequestException),
      int_of = (\<lambda>s. Inl ValueError),
      open_fault = (\<lambda>f. None),
      absent_class_matches = False\<rparr>"

section \<open>Lemmas\<close>

subsection \<open>Values, strings and dictionaries\<close>

lemma bind_exc_simps [simp]:
  "bind_exc (Inl e) f = Inl e" "bind_exc (Inr x) f = f x"
  by (simp_all add: bind_exc_def)

lemma bind_exc_eq_Inr: "bind_exc m f = Inr y \<longleftrightarrow> (\<exists>x. m = Inr x \<and> f x = Inr y)"
  by (cases m) simp_all

lemma subscript_eq_Inr: "subscript xs i = Inr x \<longleftrightarrow> i < length xs \<and> x = xs ! i"
  by (auto simp: subscript_def)

lemma tag_getitem_eq_Inr: "tag_getitem x k = Inr v \<longleftrightarrow> attr x k = Some v"
  by (simp add: tag_getitem_def split: option.splits)

lemma str_eq_iff [simp]: "str a = str b \<longleftrightarrow> a = b"
proof -
  have "inj (of_char :: char \<Rightarrow> nat)" by (simp add: inj_on_def)
  then show ?thesis by (simp add: str_def inj_map_eq_map)
qed

lemma getitem_candidate:
  "getitem (as_dict c) (str ''uploadId'') = Inr (Str (uploadId_of c))"
  "getitem (as_dict c) (str ''sourceVersion'') = Inr (Str (sourceVersion_of c))"
  "getitem (as_dict c) (str ''sourceModel'') = Inr (Str (sourceModel_of c))"
  by (cases c, simp add: getitem_def)+

lemma as_dict_nonempty: "as_dict c \<noteq> []"
  by (cases c) simp

lemma setitem_fresh: "k \<notin> fst ` set d \<Longrightarrow> setitem d k v = d @ [(k, v)]"
  by (induction d) (auto simp: setitem_def)

lemma merge_candidate:
  "setitem (setitem (setitem (as_dict c) (str ''attachIds'') x) (str ''_csrf'') y)
     (str ''token'') z
   = as_dict c @ [(str ''attachIds'', x), (str ''_csrf'', y), (str ''token'', z)]"
  by (cases c) (simp add: setitem_def)

lemma split_where_nonempty: "split_where P s \<noteq> []"
  by (induction s) (auto split: list.splits)

lemma split_where_unfold:
  "split_where P s =
     takeWhile (\<lambda>c. \<not> P c) s #
       (if \<exists>c \<in> set s. P c then split_where P (tl (dropWhile (\<lambda>c. \<not> P c) s)) else [])"
proof (induction s)
  case Nil
  then show ?case by simp
next
  case (Cons c cs)
  then show ?case by (cases "split_where P cs") (auto simp: split_where_nonempty)
qed

lemma split_second:
  "1 < length (split s sep) \<longleftrightarrow> sep \<in> set s"
  "sep \<in> set s \<Longrightarrow>
     split s sep ! 1 = takeWhile (\<lambda>c. c \<noteq> sep) (tl (dropWhile (\<lambda>c. c \<noteq> sep) s))"
proof -
  show "1 < length (split s sep) \<longleftrightarrow> sep \<in> set s"
    unfolding split_def
    by (subst split_where_unfold) (auto simp: split_where_nonempty)
  assume "sep \<in> set s"
  then show "split s sep ! 1 = takeWhile (\<lambda>c. c \<noteq> sep) (tl (dropWhile (\<lambda>c. c \<noteq> sep) s))"
    unfolding split_def
    by (subst split_where_unfold, simp, subst split_where_unfold, simp)
qed

lemma replace_empty: "replace s old [] = filter (\<lambda>c. c \<noteq> old) s"
  by (induction s) (simp_all add: replace_def)

lemma last_dropWhile: "dropWhile P xs \<noteq> [] \<Longrightarrow> last (dropWhile P xs) = last xs"
  by (induction xs) (auto split: if_splits)

lemma strip_edges:
  assumes "strip s \<noteq> []"
  shows "\<not> is_space (hd (strip s)) \<and> \<not> is_space (last (strip s))"
proof -
  let ?t = "dropWhile is_space s"
  let ?u = "dropWhile is_space (rev ?t)"
  from assms have u: "?u \<noteq> []" by (simp add: strip_def)
  have t: "?t \<noteq> []"
  proof
    assume a: "?t = []"
    have "?u = []" unfolding a by simp
    with u show False by contradiction
  qed
  have "last (strip s) = hd ?u" using u by (simp add: strip_def last_rev)
  moreover have "\<not> is_space (hd ?u)" using u by (rule hd_dropWhile)
  moreover have "hd (strip s) = last ?u" using u by (simp add: strip_def hd_rev)
  moreover have "last ?u = last (rev ?t)" using u by (rule last_dropWhile)
  moreover have "last (rev ?t) = hd ?t" using t by (simp add: last_rev)
  moreover have "\<not> is_space (hd ?t)" using t by (rule hd_dropWhile)
  ultimately show ?thesis by simp
qed

subsection \<open>The search client\<close>

lemma class_tokens_empty: "class_tokens v = [] \<longleftrightarrow> blank v"
proof (induction v)
  case Nil
  then show ?case by (simp add: class_tokens_def blank_def)
next
  case (Cons c cs)
  then show ?case
    by (cases "split_where is_space cs") (auto simp: class_tokens_def blank_def split_where_nonempty)
qed

lemma join_space_empty: "[] \<notin> set ts \<Longrightarrow> join_space ts = [] \<longleftrightarrow> ts = []"
  by (induction ts rule: join_space.induct) auto

lemma has_class_empty:
  "(has_name (str ''tr'') x \<and> has_class b [] x) = selected_row b x"
proof (cases x)
  case (Tag n a cs)
  have "[] \<notin> set (class_tokens v)" for v by (simp add: class_tokens_def)
  then show ?thesis
    using Tag
    by (auto simp: selected_row_def has_class_def is_tag_def has_name_def join_space_empty
                   class_tokens_empty split: option.splits)
next
  case (NavigableString s)
  then show ?thesis by (simp add: selected_row_def has_class_def is_tag_def has_name_def)
qed

lemma row_data_eq_Inr: "row_data row = Inr d \<longleftrightarrow> row_yields row d"
  unfolding row_data_def row_yields_def Let_def
  by (auto simp: bind_exc_eq_Inr subscript_eq_Inr tag_getitem_eq_Inr split: option.splits)

lemma rows_data_eq_Inr:
  "rows_data rows = Inr ds \<longleftrightarrow> list_all2 (\<lambda>row d. row_data row = Inr d) rows ds"
proof (induction rows arbitrary: ds)
  case Nil
  then show ?case by auto
next
  case (Cons row rows)
  then show ?case by (cases ds) (auto simp: bind_exc_eq_Inr)
qed

lemma search_rows_eq:
  "search_rows b page = Inr rows \<longleftrightarrow>
     (\<exists>table rest.
        find_all (\<lambda>x. has_name (str ''table'') x \<and> has_class b (str ''tbl-downList'') x) page
          = table # rest
      \<and> rows = find_all (selected_row b) table)"
  unfolding search_rows_def Let_def find_all_def has_class_empty
  by (cases "filter (\<lambda>x. has_name (str ''table'') x \<and> has_class b (str ''tbl-downList'') x)
               (descendants page)")
     (auto simp: subscript_def)

lemma search_data_eq:
  "search_data b page = Inr dataList \<longleftrightarrow>
     (\<exists>table rest.
        find_all (\<lambda>x. has_name (str ''table'') x \<and> has_class b (str ''tbl-downList'') x) page
          = table # rest
      \<and> list_all2 row_yields (find_all (selected_row b) table) dataList)"
  unfolding search_data_def
  by (auto simp: bind_exc_eq_Inr search_rows_eq rows_data_eq_Inr row_data_eq_Inr)

lemma find_source_none:
  "\<forall>c \<in> set cs. sourceVersion_of c \<noteq> version \<Longrightarrow>
   find_source_by_sourcever (map as_dict cs) version = Inr None"
  by (induction cs) (auto simp: getitem_candidate)

lemma find_source_first:
  "\<forall>c \<in> set pre. sourceVersion_of c \<noteq> version \<Longrightarrow> sourceVersion_of c = version \<Longrightarrow>
   find_source_by_sourcever (map as_dict pre @ as_dict c # rest) version = Inr (Some (as_dict c))"
  by (induction pre) (auto simp: getitem_candidate)

subsection \<open>Chunks\<close>

lemma concat_iter_chunks: "0 < k \<Longrightarrow> concat (iter_chunks k body) = body"
proof (induction k body rule: iter_chunks.induct)
  case (1 k body)
  then show ?case by (subst iter_chunks.simps) auto
qed

lemma iter_chunks_sizes:
  "c \<in> set (iter_chunks k body) \<Longrightarrow> 0 < length c \<and> length c \<le> k"
proof (induction k body rule: iter_chunks.induct)
  case (1 k body)
  show ?case
  proof (cases "k = 0 \<or> body = []")
    case True
    with "1.prems" show ?thesis by (simp add: iter_chunks.simps)
  next
    case False
    then have "iter_chunks k body = take k body # iter_chunks k (drop k body)"
      by (subst iter_chunks.simps) simp
    with "1.prems" have "c = take k body \<or> c \<in> set (iter_chunks k (drop k body))" by simp
    then show ?thesis
    proof
      assume "c = take k body"
      with False show ?thesis by simp
    next
      assume "c \<in> set (iter_chunks k (drop k body))"
      with "1.IH" False show ?thesis by blast
    qed
  qed
qed

lemma iter_chunks_full:
  "Suc i < length (iter_chunks k body) \<Longrightarrow> length (iter_chunks k body ! i) = k"
proof (induction k body arbitrary: i rule: iter_chunks.induct)
  case (1 k body)
  show ?case
  proof (cases "k = 0 \<or> body = []")
    case True
    with "1.prems" show ?thesis by (simp add: iter_chunks.simps)
  next
    case False
    then have eq: "iter_chunks k body = take k body # iter_chunks k (drop k body)"
      by (subst iter_chunks.simps) simp
    show ?thesis
    proof (cases i)
      case 0
      from "1.prems" eq have "iter_chunks k (drop k body) \<noteq> []" by auto
      then have "drop k body \<noteq> []" by (auto simp: iter_chunks.simps)
      then have "k < length body" by simp
      with 0 eq show ?thesis by simp
    next
      case (Suc j)
      with "1.prems" eq have "Suc j < length (iter_chunks k (drop k body))" by simp
      with "1.IH" False have "length (iter_chunks k (drop k body) ! j) = k" by blast
      with Suc eq show ?thesis by simp
    qed
  qed
qed

subsection \<open>State and events\<close>

lemma emit_simps [simp]:
  "events (emit e s) = events s @ [e]"
  "files (emit e s) = files s"
  "progressBar (emit e s) = progressBar s"
  by (simp_all add: emit_def)

lemma bar_update_simps [simp]:
  "events (bar_update k s) = events s @ [BarUpdate k]"
  "files (bar_update k s) = files s"
  "progressBar (bar_update k s) = map_option (\<lambda>b. b\<lparr>bar_n := bar_n b + k\<rparr>) (progressBar s)"
  by (simp_all add: bar_update_def)

lemma bar_close_simps [simp]:
  "events (bar_close s) = events s @ [BarClose]"
  "files (bar_close s) = files s"
  "progressBar (bar_close s) = map_option (\<lambda>b. b\<lparr>bar_closed := True\<rparr>) (progressBar s)"
  by (simp_all add: bar_close_def)

lemma file_open_simps [simp]:
  "events (file_open f s) = events s @ [FileOpen f]"
  "files (file_open f s) = (files s)(f \<mapsto> [])"
  "progressBar (file_open f s) = progressBar s"
  by (simp_all add: file_open_def)

lemma file_write_simps [simp]:
  "events (file_write f c s) = events s @ [FileWrite f c]"
  "files (file_write f c s) = (files s)(f \<mapsto> (case files s f of None \<Rightarrow> c | Some old \<Rightarrow> old @ c))"
  "progressBar (file_write f c s) = progressBar s"
  by (simp_all add: file_write_def)

lemma file_remove_simps [simp]:
  "events (file_remove f s) = events s @ [FileRemove f]"
  "files (file_remove f s) = (files s)(f := None)"
  "progressBar (file_remove f s) = progressBar s"
  by (simp_all add: file_remove_def)

subsection \<open>The streaming loop and its handlers\<close>

lemma stream_loop_ok:
  "files s f = Some old \<Longrightarrow> progressBar s = Some b \<Longrightarrow>
   \<exists>s'. stream_loop f (map (\<lambda>c. Chunk c None None) cs) s = (None, s')
      \<and> events s' = events s @ concat (map (\<lambda>c. [FileWrite f c, BarUpdate (length c)]) cs)
      \<and> files s' = (files s)(f \<mapsto> old @ concat cs)
      \<and> progressBar s' = Some (b\<lparr>bar_n := bar_n b + length (concat cs)\<rparr>)"
proof (induction cs arbitrary: s old b)
  case Nil
  then show ?case by auto
next
  case (Cons c cs)
  let ?s1 = "bar_update (length c) (file_write f c s)"
  let ?b1 = "b\<lparr>bar_n := bar_n b + length c\<rparr>"
  have f1: "files ?s1 f = Some (old @ c)" using Cons.prems by simp
  have p1: "progressBar ?s1 = Some ?b1" using Cons.prems by simp
  obtain s' where run: "stream_loop f (map (\<lambda>c. Chunk c None None) cs) ?s1 = (None, s')"
    and ev: "events s' = events ?s1 @ concat (map (\<lambda>c. [FileWrite f c, BarUpdate (length c)]) cs)"
    and fi: "files s' = (files ?s1)(f \<mapsto> (old @ c) @ concat cs)"
    and pb: "progressBar s' = Some (?b1\<lparr>bar_n := bar_n ?b1 + length (concat cs)\<rparr>)"
    using Cons.IH [OF f1 p1] by blast
  have "stream_loop f (map (\<lambda>c. Chunk c None None) (c # cs)) s = (None, s')"
    using run by simp
  moreover have "events s' = events s @ concat (map (\<lambda>c. [FileWrite f c, BarUpdate (length c)]) (c # cs))"
    using ev by simp
  moreover have "files s' = (files s)(f \<mapsto> old @ concat (c # cs))"
    using fi by simp
  moreover have "progressBar s' = Some (b\<lparr>bar_n := bar_n b + length (concat (c # cs))\<rparr>)"
    using pb by (simp add: add.assoc)
  ultimately show ?case by blast
qed

lemma stream_loop_fault:
  "fst (stream_loop f steps s) = first_fault steps"
  by (induction f steps s rule: stream_loop.induct) (auto split: option.splits simp: Let_def)

lemma stream_loop_keeps:
  "files s f \<noteq> None \<Longrightarrow> progressBar s \<noteq> None \<Longrightarrow>
   files (snd (stream_loop f steps s)) f \<noteq> None \<and> progressBar (snd (stream_loop f steps s)) \<noteq> None
   \<and> (\<exists>es. events (snd (stream_loop f steps s)) = events s @ es)"
  by (induction f steps s rule: stream_loop.induct) (auto split: option.splits simp: Let_def)


lemma stream_to_file_opened:
  assumes "getitem selectedSource (str ''sourceVersion'') = Inr v"
      and "open_fault w sourceFileName = None"
  shows "\<exists>s3. files s3 sourceFileName = Some []
           \<and> files s3 = (files s)(sourceFileName \<mapsto> [])
           \<and> progressBar s3 = Some \<lparr>bar_total = sourceSize, bar_n = 0, bar_closed = False\<rparr>
           \<and> events s3 = events s @ [Print (downloading_message sourceFileName v),
                                      BarCreate sourceSize, FileOpen sourceFileName]
           \<and> stream_to_file requestDown sourceFileName sourceSize selectedSource w s =
               (case stream_loop sourceFileName (iter_content requestDown (512 * 1024)) s3 of
                  (Some e, s4) \<Rightarrow> handler e sourceFileName (emit (FileClose sourceFileName) s4)
                | (None, s4) \<Rightarrow>
                    (Exit 0, emit (Print (str ''Done!''))
                               (bar_close (emit (FileClose sourceFileName) s4))))"
proof -
  let ?s3 = "file_open sourceFileName
               (emit (BarCreate sourceSize)
                  ((emit (Print (downloading_message sourceFileName v)) s)
                     \<lparr>progressBar :=
                        Some \<lparr>bar_total = sourceSize, bar_n = 0, bar_closed = False\<rparr>\<rparr>))"
  show ?thesis
    using assms
    by (intro exI [of _ ?s3]) (simp add: stream_to_file_def Let_def)
qed

lemma handler_cleans:
  assumes "progressBar s = Some b" and "files s sourceFileName = Some content"
  shows "handler e sourceFileName s =
     ((if e = KeyboardInterrupt then Exit 130 else Exit 1),
      emit (Print (if e = KeyboardInterrupt then str ''Interrupted!'' else str ''Error!''))
        (file_remove sourceFileName (bar_close s)))"
  using assms by (simp add: handler_def Let_def)

lemma stream_to_file_fault:
  assumes sv: "getitem selectedSource (str ''sourceVersion'') = Inr v"
      and op: "open_fault w sourceFileName = None"
      and ff: "first_fault (iter_content requestDown (512 * 1024)) = Some e"
  shows "\<exists>s' es b. stream_to_file requestDown sourceFileName sourceSize selectedSource w s =
            ((if e = KeyboardInterrupt then Exit 130 else Exit 1), s')
         \<and> files s' sourceFileName = None
         \<and> progressBar s' = Some b \<and> bar_closed b
         \<and> events s' = events s @ es @
              [FileClose sourceFileName, BarClose, FileRemove sourceFileName,
               Print (if e = KeyboardInterrupt then str ''Interrupted!'' else str ''Error!'')]"
proof -
  obtain s3 where s3: "files s3 sourceFileName = Some []"
      "progressBar s3 = Some \<lparr>bar_total = sourceSize, bar_n = 0, bar_closed = False\<rparr>"
      "events s3 = events s @ [Print (downloading_message sourceFileName v),
                                BarCreate sourceSize, FileOpen sourceFileName]"
      and run: "stream_to_file requestDown sourceFileName sourceSize selectedSource w s =
               (case stream_loop sourceFileName (iter_content requestDown (512 * 1024)) s3 of
                  (Some e, s4) \<Rightarrow> handler e sourceFileName (emit (FileClose sourceFileName) s4)
                | (None, s4) \<Rightarrow>
                    (Exit 0, emit (Print (str ''Done!''))
                               (bar_close (emit (FileClose sourceFileName) s4))))"
    using stream_to_file_opened [OF sv op] by blast
  obtain r4 s4 where rs:
      "stream_loop sourceFileName (iter_content requestDown (512 * 1024)) s3 = (r4, s4)"
    by (cases "stream_loop sourceFileName (iter_content requestDown (512 * 1024)) s3")
  have r4: "r4 = Some e"
    using stream_loop_fault [of sourceFileName "iter_content requestDown (512 * 1024)" s3] ff rs
    by simp
  from stream_loop_keeps [of s3 sourceFileName "iter_content requestDown (512 * 1024)"] s3 rs
  obtain content b4 es4 where k: "files s4 sourceFileName = Some content"
      "progressBar s4 = Some b4" "events s4 = events s3 @ es4"
    by auto
  let ?s5 = "emit (FileClose sourceFileName) s4"
  let ?s' = "emit (Print (if e = KeyboardInterrupt then str ''Interrupted!'' else str ''Error!''))
        (file_remove sourceFileName (bar_close ?s5))"
  have h: "handler e sourceFileName ?s5 =
     ((if e = KeyboardInterrupt then Exit 130 else Exit 1), ?s')"
    using k by (intro handler_cleans) simp_all
  have "stream_to_file requestDown sourceFileName sourceSize selectedSource w s =
            ((if e = KeyboardInterrupt then Exit 130 else Exit 1), ?s')"
    using run rs r4 h by simp
  moreover have "files ?s' sourceFileName = None" by simp
  moreover have "progressBar ?s' = Some (b4\<lparr>bar_closed := True\<rparr>)" using k by simp
  moreover have "bar_closed (b4\<lparr>bar_closed := True\<rparr>)" by simp
  moreover have "events ?s' = events s @ ([Print (downloading_message sourceFileName v),
                                BarCreate sourceSize, FileOpen sourceFileName] @ es4) @
              [FileClose sourceFileName, BarClose, FileRemove sourceFileName,
               Print (if e = KeyboardInterrupt then str ''Interrupted!'' else str ''Error!'')]"
    using k s3 by simp
  ultimately show ?thesis by blast
qed

subsection \<open>Requests\<close>

lemma local_only_refl: "local_only s s"
  by (simp add: local_only_def)

lemma local_only_trans: "local_only s t \<Longrightarrow> local_only t u \<Longrightarrow> local_only s u"
  by (fastforce simp: local_only_def)

lemma local_only_step:
  assumes "local_only s t" and "events u = events t @ [e]" and "\<not> is_request e"
  shows "local_only s u"
  using assms by (fastforce simp: local_only_def)

lemma stream_loop_local: "local_only s (snd (stream_loop f steps s))"
proof (induction f steps s rule: stream_loop.induct)
  case (1 f s)
  then show ?case by (simp add: local_only_refl)
next
  case (2 f e rest s)
  then show ?case by (simp add: local_only_refl)
next
  case (3 f chunk write_fault update_fault rest s)
  have w: "local_only s (file_write f chunk s)"
    by (rule local_only_step [OF local_only_refl], simp, simp)
  have u: "local_only s (bar_update (length chunk) (file_write f chunk s))"
    by (rule local_only_step [OF w], simp, simp)
  show ?case
  proof (cases write_fault)
    case (Some e)
    then show ?thesis by (simp add: local_only_refl)
  next
    case None
    show ?thesis
    proof (cases update_fault)
      case (Some e)
      with None w show ?thesis by simp
    next
      case N: None
      with None "3.IH" have "local_only (bar_update (length chunk) (file_write f chunk s))
           (snd (stream_loop f rest (bar_update (length chunk) (file_write f chunk s))))"
        by simp
      with u N None show ?thesis by (simp add: local_only_trans)
    qed
  qed
qed

lemma handler_local: "local_only s (snd (handler e f s))"
proof -
  have c: "local_only s (bar_close s)"
    by (rule local_only_step [OF local_only_refl], simp, simp)
  have r: "local_only s (file_remove f (bar_close s))"
    by (rule local_only_step [OF c], simp, simp)
  have p: "local_only s (emit (Print m) (file_remove f (bar_close s)))" for m
    by (rule local_only_step [OF r], simp, simp)
  show ?thesis
    using c p by (auto simp: handler_def Let_def local_only_refl split: option.splits)
qed

lemma stream_to_file_local:
  "local_only s (snd (stream_to_file requestDown f n d w s))"
proof (cases "getitem d (str ''sourceVersion'')")
  case (Inl e)
  then show ?thesis by (simp add: stream_to_file_def handler_local)
next
  case (Inr v)
  let ?s1 = "emit (Print (downloading_message f v)) s"
  let ?s2 = "emit (BarCreate n)
               (?s1\<lparr>progressBar := Some \<lparr>bar_total = n, bar_n = 0, bar_closed = False\<rparr>\<rparr>)"
  have l1: "local_only s ?s1" by (rule local_only_step [OF local_only_refl], simp, simp)
  have l2: "local_only s ?s2" by (rule local_only_step [OF l1], simp, simp)
  show ?thesis
  proof (cases "open_fault w f")
    case (Some e)
    with Inr show ?thesis
      using local_only_trans [OF l2 handler_local [of ?s2 e f]]
      by (simp add: stream_to_file_def Let_def)
  next
    case None
    let ?s3 = "file_open f ?s2"
    have l3: "local_only s ?s3" by (rule local_only_step [OF l2], simp, simp)
    obtain r s4 where rs: "stream_loop f (iter_content requestDown (512 * 1024)) ?s3 = (r, s4)"
      by (cases "stream_loop f (iter_content requestDown (512 * 1024)) ?s3")
    have l4: "local_only s s4"
      using local_only_trans [OF l3 stream_loop_local [of ?s3 f "iter_content requestDown (512 * 1024)"]] rs
      by simp
    have l5: "local_only s (emit (FileClose f) s4)"
      by (rule local_only_step [OF l4], simp, simp)
    show ?thesis
    proof (cases r)
      case N: None
      have l6: "local_only s (bar_close (emit (FileClose f) s4))"
        by (rule local_only_step [OF l5], simp, simp)
      have l7: "local_only s (emit (Print (str ''Done!'')) (bar_close (emit (FileClose f) s4)))"
        by (rule local_only_step [OF l6], simp, simp)
      with Inr None rs N show ?thesis by (simp add: stream_to_file_def Let_def)
    next
      case (Some e)
      with Inr None rs show ?thesis
        using local_only_trans [OF l5 handler_local [of "emit (FileClose f) s4" e f]]
        by (simp add: stream_to_file_def Let_def)
    qed
  qed
qed


lemma local_only_serves: "local_only s s' \<Longrightarrow> only_serves c s s'"
proof -
  have "serves c e" if "\<not> is_request e" for e
    using that by (cases e) simp_all
  then show "local_only s s' \<Longrightarrow> only_serves c s s'"
    by (auto simp: local_only_def only_serves_def)
qed

lemma only_serves_trans: "only_serves c s t \<Longrightarrow> only_serves c t u \<Longrightarrow> only_serves c s u"
  by (fastforce simp: only_serves_def)

lemma only_serves_emit: "serves c e \<Longrightarrow> only_serves c s (emit e s)"
  by (simp add: only_serves_def)

lemma resolve_shape:
  assumes "resolve (as_dict c) page = Inr authorized"
  shows "\<exists>x y z. authorized =
           as_dict c @ [(str ''attachIds'', x), (str ''_csrf'', y), (str ''token'', z)]"
  using assms unfolding resolve_def Let_def
  by (auto simp: bind_exc_eq_Inr merge_candidate)

lemma resolve_take4:
  assumes "resolve (as_dict c) page = Inr authorized"
  shows "take 4 authorized = as_dict c"
proof -
  have "length (as_dict c) = 4" by (cases c) simp
  with resolve_shape [OF assms] show ?thesis by auto
qed

lemma download_source_serves:
  "only_serves c s (snd (download_source (as_dict c) w s))"
proof -
  let ?u = "uploadId_of c"
  let ?s1 = "emit (HttpGet (modalURL @ ?u)) s"
  have g: "getitem (as_dict c) (str ''uploadId'') = Inr (Str ?u)"
    by (rule getitem_candidate)
  have o1: "only_serves c s ?s1"
    by (rule only_serves_emit) simp
  show ?thesis
  proof (cases "session_get w (modalURL @ ?u)")
    case (Inl e)
    with g o1 show ?thesis by (simp add: download_source_def Let_def)
  next
    case page: (Inr parseModalRequest)
    show ?thesis
    proof (cases "resolve (as_dict c) parseModalRequest")
      case (Inl e)
      with g o1 page show ?thesis by (simp add: download_source_def Let_def)
    next
      case auth: (Inr authorized)
      let ?s2 = "emit (HttpPost downSrcURL authorized requestHeader) ?s1"
      have "serves c (HttpPost downSrcURL authorized requestHeader)"
        using resolve_take4 [OF auth] by simp
      then have "only_serves c ?s1 ?s2" by (rule only_serves_emit)
      with o1 have o2: "only_serves c s ?s2" by (rule only_serves_trans)
      show ?thesis
      proof (cases "session_post w downSrcURL authorized requestHeader")
        case (Inl e)
        with g o2 page auth show ?thesis by (simp add: download_source_def Let_def)
      next
        case resp: (Inr requestDown)
        show ?thesis
        proof (cases "bind_exc (header requestDown (str ''Content-Disposition'')) file_name")
          case (Inl e)
          with g o2 page auth resp show ?thesis by (simp add: download_source_def Let_def)
        next
          case fname: (Inr sourceFileName)
          show ?thesis
          proof (cases "bind_exc (header requestDown (str ''Content-Length'')) (int_of w)")
            case (Inl e)
            with g o2 page auth resp fname show ?thesis
              by (simp add: download_source_def Let_def)
          next
            case size: (Inr sourceSize)
            let ?r = "stream_to_file requestDown sourceFileName sourceSize authorized w ?s2"
            have "only_serves c ?s2 (snd ?r)"
              by (rule local_only_serves [OF stream_to_file_local])
            with o2 have "only_serves c s (snd ?r)" by (rule only_serves_trans)
            with g page auth resp fname size show ?thesis
              by (simp add: download_source_def Let_def)
          qed
        qed
      qed
    qed
  qed
qed

subsection \<open>The example inputs, evaluated\<close>

lemmas example_defs =
  search_data_def search_rows_def spec_search_data_def find_all_def find_first_def
  has_name_def has_attr_def has_class_def is_tag_def attr_def class_tokens_def row_data_def
  subscript_def tag_getitem_def split_def strip_def is_space_def example_page_def
  example_row_def td_cell_def example_href_def empty_page_def example_modal_def
  example_candidate_def example_disposition_def Let_def file_name_def replace_def
  spec_file_name_def strip_chars_def blank_class_def

text \<open>A row with a blank class is read under either library.\<close>

lemma example_search:
  "search_data b (example_page [example_row blank_class (str '' V2 '') (str ''56'')]) =
     Inr [as_dict example_candidate]"
  by (simp add: example_defs str_def)

text \<open>A row without the attribute is read only where the library matches an absent one.\<close>

lemma example_search_without_class:
  "search_data True (example_page [example_row [] (str '' V2 '') (str ''56'')]) =
     Inr [as_dict example_candidate]"
  "search_data False (example_page [example_row [] (str '' V2 '') (str ''56'')]) = Inr []"
  by (simp_all add: example_defs str_def)

lemma example_quote: "quote (str ''SM-G960F'') = Inr (str ''SM-G960F'')"
  by (simp add: quote_def encode_point_def quote_byte_def str_def)

section \<open>The claims\<close>

subsection \<open>C1: no matching version\<close>

text \<open>
  Claim C1. For every list of release candidates and every requested version: when no
  candidate has that source version, the download command prints the diagnostic
  \<open>Invalid source version: <version>\<close> and ends with exit status 1, and this print is the
  only event it adds: no request goes to the modal endpoint or to the download endpoint.
\<close>

theorem no_match_exits_before_authorization:
  assumes "\<forall>c \<in> set cs. sourceVersion_of c \<noteq> version"
  shows "download_cmd (map as_dict cs) version w s =
     (Exit 1, s\<lparr>events := events s @ [Print (str ''Invalid source version: '' @ version)]\<rparr>)"
  using assms by (simp add: download_cmd_def find_source_none invalid_version_def emit_def)

theorem no_match_exits_before_authorization_witness:
  "sourceVersion_of example_candidate \<noteq> str ''V3''
   \<and> download_cmd (map as_dict [example_candidate]) (str ''V3'') (example_world empty_page)
       (init_state Map.empty) =
     (Exit 1,
      (init_state Map.empty)
        \<lparr>events := events (init_state Map.empty)
                     @ [Print (str ''Invalid source version: '' @ str ''V3'')]\<rparr>)"
proof -
  have h: "\<forall>c \<in> set [example_candidate]. sourceVersion_of c \<noteq> str ''V3''"
    by (simp add: example_candidate_def)
  from no_match_exits_before_authorization [OF h] h show ?thesis by simp
qed

subsection \<open>C2: streaming a whole body\<close>

text \<open>
  Claim C2. When the loop is reached and the body of \<open>N\<close> octets arrives whole, the
  script asks for chunks of 512 KiB, writes each chunk and then advances the progress
  bar by the length of that chunk; at the end the destination file holds exactly the
  body, the bar counts \<open>N\<close> and is closed, and the exit status is 0. Every chunk has at
  most 524288 octets and every chunk but the last exactly that many.
\<close>

theorem stream_writes_body_and_progress:
  assumes sv: "getitem selectedSource (str ''sourceVersion'') = Inr v"
      and op: "open_fault w sourceFileName = None"
      and ic: "iter_content requestDown = delivered body"
  shows "\<exists>s'. stream_to_file requestDown sourceFileName sourceSize selectedSource w s = (Exit 0, s')
     \<and> files s' = (files s)(sourceFileName \<mapsto> body)
     \<and> progressBar s' = Some \<lparr>bar_total = sourceSize, bar_n = length body, bar_closed = True\<rparr>
     \<and> events s' = events s
          @ [Print (downloading_message sourceFileName v), BarCreate sourceSize,
             FileOpen sourceFileName]
          @ concat (map (\<lambda>c. [FileWrite sourceFileName c, BarUpdate (length c)])
                     (iter_chunks 524288 body))
          @ [FileClose sourceFileName, BarClose, Print (str ''Done!'')]
     \<and> concat (iter_chunks 524288 body) = body
     \<and> (\<forall>c \<in> set (iter_chunks 524288 body). 0 < length c \<and> length c \<le> 524288)
     \<and> (\<forall>i. Suc i < length (iter_chunks 524288 body)
            \<longrightarrow> length (iter_chunks 524288 body ! i) = 524288)"
proof -
  let ?cs = "iter_chunks 524288 body"
  let ?b0 = "\<lparr>bar_total = sourceSize, bar_n = 0, bar_closed = False\<rparr>"
  obtain s3 where s3: "files s3 sourceFileName = Some []"
      "files s3 = (files s)(sourceFileName \<mapsto> [])"
      "progressBar s3 = Some ?b0"
      "events s3 = events s @ [Print (downloading_message sourceFileName v),
                                BarCreate sourceSize, FileOpen sourceFileName]"
      and run: "stream_to_file requestDown sourceFileName sourceSize selectedSource w s =
               (case stream_loop sourceFileName (iter_content requestDown (512 * 1024)) s3 of
                  (Some e, s4) \<Rightarrow> handler e sourceFileName (emit (FileClose sourceFileName) s4)
                | (None, s4) \<Rightarrow>
                    (Exit 0, emit (Print (str ''Done!''))
                               (bar_close (emit (FileClose sourceFileName) s4))))"
    using stream_to_file_opened [OF sv op] by blast
  have steps: "iter_content requestDown (512 * 1024) = map (\<lambda>c. Chunk c None None) ?cs"
    by (simp add: ic delivered_def)
  have body: "concat ?cs = body" by (simp add: concat_iter_chunks)
  obtain s4 where s4:
      "stream_loop sourceFileName (map (\<lambda>c. Chunk c None None) ?cs) s3 = (None, s4)"
      "events s4 = events s3
         @ concat (map (\<lambda>c. [FileWrite sourceFileName c, BarUpdate (length c)]) ?cs)"
      "files s4 = (files s3)(sourceFileName \<mapsto> [] @ concat ?cs)"
      "progressBar s4 = Some (?b0\<lparr>bar_n := bar_n ?b0 + length (concat ?cs)\<rparr>)"
    using stream_loop_ok [OF s3(1) s3(3), of ?cs] by blast
  let ?s' = "emit (Print (str ''Done!'')) (bar_close (emit (FileClose sourceFileName) s4))"
  have "stream_to_file requestDown sourceFileName sourceSize selectedSource w s = (Exit 0, ?s')"
    using run steps s4(1) by simp
  moreover have "files ?s' = (files s)(sourceFileName \<mapsto> body)"
    using s4(3) s3(2) body by simp
  moreover have "progressBar ?s' =
      Some \<lparr>bar_total = sourceSize, bar_n = length body, bar_closed = True\<rparr>"
    using s4(4) body by simp
  moreover have "events ?s' = events s
          @ [Print (downloading_message sourceFileName v), BarCreate sourceSize,
             FileOpen sourceFileName]
          @ concat (map (\<lambda>c. [FileWrite sourceFileName c, BarUpdate (length c)]) ?cs)
          @ [FileClose sourceFileName, BarClose, Print (str ''Done!'')]"
    using s4(2) s3(4) by simp
  moreover have "\<forall>c \<in> set ?cs. 0 < length c \<and> length c \<le> 524288"
    using iter_chunks_sizes by blast
  moreover have "\<forall>i. Suc i < length ?cs \<longrightarrow> length (?cs ! i) = 524288"
    using iter_chunks_full by blast
  ultimately show ?thesis using body by blast
qed

theorem stream_writes_body_and_progress_witness:
  "getitem (as_dict example_candidate) (str ''sourceVersion'') = Inr (Str (str ''V2''))
   \<and> open_fault (example_world empty_page) (str ''ab.zip'') = None
   \<and> iter_content (example_response (delivered [1, 2, 3])) = delivered [1, 2, 3]
   \<and> (\<exists>s'. stream_to_file (example_response (delivered [1, 2, 3])) (str ''ab.zip'') 3
               (as_dict example_candidate) (example_world empty_page) (init_state Map.empty)
             = (Exit 0, s')
          \<and> files s' = (files (init_state Map.empty))(str ''ab.zip'' \<mapsto> [1, 2, 3])
          \<and> progressBar s' = Some \<lparr>bar_total = 3, bar_n = 3, bar_closed = True\<rparr>)"
proof -
  have h1: "getitem (as_dict example_candidate) (str ''sourceVersion'') = Inr (Str (str ''V2''))"
    using getitem_candidate(2) [of example_candidate] by (simp add: example_candidate_def)
  have h2: "open_fault (example_world empty_page) (str ''ab.zip'') = None"
    by (simp add: example_world_def)
  have h3: "iter_content (example_response (delivered [1, 2, 3])) = delivered [1, 2, 3]"
    by (simp add: example_response_def)
  from stream_writes_body_and_progress [OF h1 h2 h3, of 3 "init_state Map.empty"]
  obtain s' where
    "stream_to_file (example_response (delivered [1, 2, 3])) (str ''ab.zip'') 3
       (as_dict example_candidate) (example_world empty_page) (init_state Map.empty)
     = (Exit 0, s')"
    "files s' = (files (init_state Map.empty))(str ''ab.zip'' \<mapsto> [1, 2, 3])"
    "progressBar s' = Some \<lparr>bar_total = 3, bar_n = length [1, 2, 3 :: byte], bar_closed = True\<rparr>"
    by blast
  then show ?thesis using h1 h2 h3 by simp
qed

subsection \<open>C3 and C4: cleanup when the loop is left by an exception\<close>

text \<open>
  Claim C3. When the loop is reached and the first exception raised in it (by the
  iterator, by \<open>file.write\<close> or by \<open>progressBar.update\<close>) is KeyboardInterrupt, the
  script closes the file, closes the progress bar, removes the destination file, prints
  \<open>Interrupted!\<close> and ends with exit status 130; the destination file does not exist
  afterwards.
\<close>

theorem interrupt_removes_partial_file:
  assumes "getitem selectedSource (str ''sourceVersion'') = Inr v"
      and "open_fault w sourceFileName = None"
      and "first_fault (iter_content requestDown (512 * 1024)) = Some KeyboardInterrupt"
  shows "\<exists>s' es b. stream_to_file requestDown sourceFileName sourceSize selectedSource w s =
            (Exit 130, s')
         \<and> files s' sourceFileName = None
         \<and> progressBar s' = Some b \<and> bar_closed b
         \<and> events s' = events s @ es @
              [FileClose sourceFileName, BarClose, FileRemove sourceFileName,
               Print (str ''Interrupted!'')]"
  using stream_to_file_fault [OF assms, of sourceSize s] by simp

theorem interrupt_removes_partial_file_witness:
  "getitem (as_dict example_candidate) (str ''sourceVersion'') = Inr (Str (str ''V2''))
   \<and> open_fault (example_world empty_page) (str ''ab.zip'') = None
   \<and> first_fault (iter_content
        (example_response (\<lambda>k. [Chunk [1, 2] None None, Broken KeyboardInterrupt]))
        (512 * 1024)) = Some KeyboardInterrupt
   \<and> (\<exists>s'. stream_to_file
               (example_response (\<lambda>k. [Chunk [1, 2] None None, Broken KeyboardInterrupt]))
               (str ''ab.zip'') 3 (as_dict example_candidate) (example_world empty_page)
               (init_state Map.empty)
             = (Exit 130, s')
          \<and> files s' (str ''ab.zip'') = None)"
proof -
  have h1: "getitem (as_dict example_candidate) (str ''sourceVersion'') = Inr (Str (str ''V2''))"
    using getitem_candidate(2) [of example_candidate] by (simp add: example_candidate_def)
  have h2: "open_fault (example_world empty_page) (str ''ab.zip'') = None"
    by (simp add: example_world_def)
  have h3: "first_fault (iter_content
        (example_response (\<lambda>k. [Chunk [1, 2] None None, Broken KeyboardInterrupt]))
        (512 * 1024)) = Some KeyboardInterrupt"
    by (simp add: example_response_def)
  from interrupt_removes_partial_file [OF h1 h2 h3, of 3 "init_state Map.empty"] h1 h2 h3
  show ?thesis by blast
qed

text \<open>
  Claim C4. When the loop is reached and the first exception raised in it is any other
  exception, the script closes the file, closes the progress bar, removes the
  destination file, prints \<open>Error!\<close> and ends with exit status 1; the destination file
  does not exist afterwards.
\<close>

theorem error_removes_partial_file:
  assumes "getitem selectedSource (str ''sourceVersion'') = Inr v"
      and "open_fault w sourceFileName = None"
      and "first_fault (iter_content requestDown (512 * 1024)) = Some e"
      and "e \<noteq> KeyboardInterrupt"
  shows "\<exists>s' es b. stream_to_file requestDown sourceFileName sourceSize selectedSource w s =
            (Exit 1, s')
         \<and> files s' sourceFileName = None
         \<and> progressBar s' = Some b \<and> bar_closed b
         \<and> events s' = events s @ es @
              [FileClose sourceFileName, BarClose, FileRemove sourceFileName,
               Print (str ''Error!'')]"
  using stream_to_file_fault [OF assms(1-3), of sourceSize s] assms(4) by simp

theorem error_removes_partial_file_witness:
  "getitem (as_dict example_candidate) (str ''sourceVersion'') = Inr (Str (str ''V2''))
   \<and> open_fault (example_world empty_page) (str ''ab.zip'') = None
   \<and> first_fault (iter_content
        (example_response (\<lambda>k. [Chunk [1, 2] None None, Chunk [3] (Some OSError) None]))
        (512 * 1024)) = Some OSError
   \<and> OSError \<noteq> KeyboardInterrupt
   \<and> (\<exists>s'. stream_to_file
               (example_response (\<lambda>k. [Chunk [1, 2] None None, Chunk [3] (Some OSError) None]))
               (str ''ab.zip'') 3 (as_dict example_candidate) (example_world empty_page)
               (init_state Map.empty)
             = (Exit 1, s')
          \<and> files s' (str ''ab.zip'') = None)"
proof -
  have h1: "getitem (as_dict example_candidate) (str ''sourceVersion'') = Inr (Str (str ''V2''))"
    using getitem_candidate(2) [of example_candidate] by (simp add: example_candidate_def)
  have h2: "open_fault (example_world empty_page) (str ''ab.zip'') = None"
    by (simp add: example_world_def)
  have h3: "first_fault (iter_content
        (example_response (\<lambda>k. [Chunk [1, 2] None None, Chunk [3] (Some OSError) None]))
        (512 * 1024)) = Some OSError"
    by (simp add: example_response_def)
  have h4: "OSError \<noteq> KeyboardInterrupt" by simp
  from error_removes_partial_file [OF h1 h2 h3 h4, of 3 "init_state Map.empty"] h1 h2 h3 h4
  show ?thesis by blast
qed

subsection \<open>C5: the authorization\<close>

text \<open>
  Claim C5. For a release candidate and a modal page, the resolver succeeds exactly when
  the page has a second \<open>input\<close> of type \<open>checkbox\<close> with an \<open>id\<close>, a first element
  named \<open>_csrf\<close> with a \<open>value\<close>, and a first element with id \<open>token\<close> whose \<open>value\<close>
  encodes to UTF-8; the result is then the four fields of the candidate, unchanged and
  in order, followed by \<open>attachIds\<close>, \<open>_csrf\<close> and \<open>token\<close> with these three values.
\<close>

theorem resolve_merges_three_fields:
  "resolve (as_dict c) page = Inr authorized \<longleftrightarrow>
     (\<exists>checkboxes fields elements attachIds csrf token b.
        checkboxes = find_all (\<lambda>x. has_name (str ''input'') x
                                   \<and> has_attr (str ''type'') (str ''checkbox'') x) page
      \<and> 1 < length checkboxes
      \<and> attr (checkboxes ! 1) (str ''id'') = Some attachIds
      \<and> fields = find_all (has_attr (str ''name'') (str ''_csrf'')) page
      \<and> 0 < length fields
      \<and> attr (fields ! 0) (str ''value'') = Some csrf
      \<and> elements = find_all (has_attr (str ''id'') (str ''token'')) page
      \<and> 0 < length elements
      \<and> attr (elements ! 0) (str ''value'') = Some token
      \<and> encode_utf8 token = Inr b
      \<and> authorized = as_dict c @ [(str ''attachIds'', Str attachIds),
                                  (str ''_csrf'', Str csrf),
                                  (str ''token'', Bytes b)])"
  unfolding resolve_def Let_def
  by (auto simp: bind_exc_eq_Inr subscript_eq_Inr tag_getitem_eq_Inr merge_candidate)

theorem resolve_merges_three_fields_witness:
  "resolve (as_dict example_candidate) example_modal =
     Inr (as_dict example_candidate @ [(str ''attachIds'', Str (str ''777'')),
                                       (str ''_csrf'', Str (str ''c5'')),
                                       (str ''token'', Bytes [116, 48])])"
  by (subst resolve_merges_three_fields)
     (simp add: example_modal_def find_all_def has_name_def has_attr_def is_tag_def attr_def
                example_candidate_def, simp add: str_def encode_point_def)

subsection \<open>C6: the search client\<close>




subsection \<open>C7: the file name\<close>

text \<open>
  Claim C7, as stated, fails: the script removes every double quote and every semicolon,
  not only those around the name. For \<open>attachment; filename="a;b.zip"\<close> it gives
  \<open>ab.zip\<close>, while removing the surrounding ones gives \<open>a;b.zip\<close>.
\<close>

theorem file_name_interior_semicolon:
  "file_name example_disposition = Inr (str ''ab.zip'')
   \<and> spec_file_name example_disposition = Inr (str ''a;b.zip'')"
  by (simp add: example_defs str_def)

text \<open>
  Claim C7, amended. When the header value contains \<open>=\<close>, the file name is the text
  between the first \<open>=\<close> and the next one (or the end), without its first character and
  with every double quote and every semicolon removed; without \<open>=\<close> the script raises
  IndexError.
\<close>

theorem file_name_removes_every_quote_and_semicolon:
  "file_name disposition =
     (if 61 \<in> set disposition
      then Inr (filter (\<lambda>c. c \<noteq> 34 \<and> c \<noteq> 59)
                  (drop 1 (takeWhile (\<lambda>c. c \<noteq> 61)
                             (tl (dropWhile (\<lambda>c. c \<noteq> 61) disposition)))))
      else Inl IndexError)"
proof (cases "61 \<in> set disposition")
  case True
  then show ?thesis
    using split_second [where s = disposition and sep = 61]
    by (simp add: file_name_def subscript_def replace_empty conj_commute)
next
  case False
  then show ?thesis
    using split_second(1) [where s = disposition and sep = 61]
    by (simp add: file_name_def subscript_def)
qed

theorem file_name_removes_every_quote_and_semicolon_witness:
  "61 \<in> set example_disposition \<and> file_name example_disposition = Inr (str ''ab.zip'')"
  using file_name_removes_every_quote_and_semicolon [of example_disposition]
  by (simp add: example_disposition_def str_def)

subsection \<open>C8: the source version\<close>

text \<open>
  Claim C8, as stated, fails: under either library, a selected row whose third cell
  holds only whitespace gives a candidate whose source version is the empty string.
\<close>

theorem source_version_can_be_empty:
  "search_data True (example_page [example_row blank_class (str ''  '') (str ''56'')])
     = Inr [as_dict (ReleaseCandidate (str ''56'') [] (str ''SM-G960F''))]
   \<and> search_data False (example_page [example_row blank_class (str ''  '') (str ''56'')])
     = Inr [as_dict (ReleaseCandidate (str ''56'') [] (str ''SM-G960F''))]
   \<and> getitem (as_dict (ReleaseCandidate (str ''56'') [] (str ''SM-G960F'')))
       (str ''sourceVersion'') = Inr (Str [])"
proof -
  have "search_data b (example_page [example_row blank_class (str ''  '') (str ''56'')])
          = Inr [as_dict (ReleaseCandidate (str ''56'') [] (str ''SM-G960F''))]" for b
    by (simp add: example_defs str_def)
  moreover have "getitem (as_dict (ReleaseCandidate (str ''56'') [] (str ''SM-G960F'')))
          (str ''sourceVersion'') = Inr (Str [])"
    by (simp add: getitem_def)
  ultimately show ?thesis by simp
qed

text \<open>
  Claim C8, amended. In every list that the search client returns, the candidate at
  position \<open>i\<close> comes from the selected row at position \<open>i\<close> of the first table of the
  class, and its source version is the stripped text of the third \<open>td\<close> cell of that row:
  a string that is empty, or that neither starts nor ends with whitespace.
\<close>

theorem source_version_is_stripped_text:
  assumes "search_data absent_matches page = Inr dataList" and "i < length dataList"
  shows "\<exists>table rest rows cells v.
            find_all (\<lambda>x. has_name (str ''table'') x
                          \<and> has_class absent_matches (str ''tbl-downList'') x) page
              = table # rest
          \<and> rows = find_all (\<lambda>x. has_name (str ''tr'') x \<and> has_class absent_matches [] x) table
          \<and> length rows = length dataList
          \<and> cells = find_all (has_name (str ''td'')) (rows ! i)
          \<and> 2 < length cells
          \<and> v = strip (get_text (cells ! 2))
          \<and> getitem (dataList ! i) (str ''sourceVersion'') = Inr (Str v)
          \<and> (v = [] \<or> (\<not> is_space (hd v) \<and> \<not> is_space (last v)))"
proof -
  from assms(1) obtain table rest where
    t: "find_all (\<lambda>x. has_name (str ''table'') x
                      \<and> has_class absent_matches (str ''tbl-downList'') x) page
          = table # rest"
    and l: "list_all2 row_yields (find_all (selected_row absent_matches) table) dataList"
    unfolding search_data_eq by blast
  let ?rows = "find_all (\<lambda>x. has_name (str ''tr'') x \<and> has_class absent_matches [] x) table"
  have rows: "?rows = find_all (selected_row absent_matches) table"
    by (simp add: find_all_def has_class_empty)
  from l have len: "length ?rows = length dataList"
    unfolding rows by (rule list_all2_lengthD)
  from l assms(2) have "row_yields (?rows ! i) (dataList ! i)"
    unfolding rows by (simp add: list_all2_conv_all_nth)
  then obtain u m where
    c: "5 < length (find_all (has_name (str ''td'')) (?rows ! i))"
    and d: "dataList ! i =
          as_dict (ReleaseCandidate u
                     (strip (get_text (find_all (has_name (str ''td'')) (?rows ! i) ! 2))) m)"
    by (auto simp: row_yields_def)
  let ?cells = "find_all (has_name (str ''td'')) (?rows ! i)"
  let ?v = "strip (get_text (?cells ! 2))"
  have g: "getitem (dataList ! i) (str ''sourceVersion'') = Inr (Str ?v)"
    using getitem_candidate(2) [of "ReleaseCandidate u ?v m"] d by simp
  have e: "?v = [] \<or> (\<not> is_space (hd ?v) \<and> \<not> is_space (last ?v))"
    using strip_edges [of "get_text (?cells ! 2)"] by blast
  from c have c2: "2 < length ?cells" by simp
  from t len c2 g e show ?thesis by blast
qed

theorem source_version_is_stripped_text_witness:
  "search_data False (example_page [example_row blank_class (str '' V2 '') (str ''56'')])
     = Inr [as_dict example_candidate]
   \<and> (0 :: nat) < length [as_dict example_candidate]
   \<and> (\<exists>cells v.
          2 < length cells
        \<and> v = strip (get_text (cells ! 2))
        \<and> getitem ([as_dict example_candidate] ! 0) (str ''sourceVersion'') = Inr (Str v)
        \<and> (v = [] \<or> (\<not> is_space (hd v) \<and> \<not> is_space (last v))))"
proof -
  have h1: "search_data False
              (example_page [example_row blank_class (str '' V2 '') (str ''56'')])
              = Inr [as_dict example_candidate]"
    by (rule example_search)
  have h2: "(0 :: nat) < length [as_dict example_candidate]" by simp
  from source_version_is_stripped_text [OF h1 h2] h1 h2 show ?thesis by blast
qed

subsection \<open>C9: the first match\<close>

text \<open>
  Claim C9. When the candidate \<open>c\<close> has the requested version and no candidate before it
  in the list has, the download command does exactly what the download of \<open>c\<close> does,
  whatever follows \<open>c\<close> in the list; every request it sends is the GET of the modal page
  of \<open>c\<close> or a POST to the download endpoint whose form starts with the four fields of
  \<open>c\<close>.
\<close>

theorem first_match_is_selected:
  assumes "\<forall>p \<in> set pre. sourceVersion_of p \<noteq> version"
      and "sourceVersion_of c = version"
  shows "download_cmd (map as_dict pre @ as_dict c # rest) version w s
           = download_source (as_dict c) w s
       \<and> (\<exists>es. events (snd (download_cmd (map as_dict pre @ as_dict c # rest) version w s))
                  = events s @ es
              \<and> (\<forall>e \<in> set es. serves c e))"
proof -
  have "download_cmd (map as_dict pre @ as_dict c # rest) version w s
          = download_source (as_dict c) w s"
    using assms by (simp add: download_cmd_def find_source_first as_dict_nonempty)
  then show ?thesis
    using download_source_serves [of c s w] by (simp add: only_serves_def)
qed

theorem first_match_is_selected_witness:
  "sourceVersion_of (ReleaseCandidate (str ''55'') (str ''V1'') (str ''SM-G960F'')) \<noteq> str ''V2''
   \<and> sourceVersion_of example_candidate = str ''V2''
   \<and> download_cmd
       (map as_dict [ReleaseCandidate (str ''55'') (str ''V1'') (str ''SM-G960F'')]
          @ as_dict example_candidate
          # [as_dict (ReleaseCandidate (str ''57'') (str ''V2'') (str ''SM-G960F''))])
       (str ''V2'') (example_world example_modal) (init_state Map.empty)
     = download_source (as_dict example_candidate) (example_world example_modal)
         (init_state Map.empty)"
proof -
  have h1: "\<forall>p \<in> set [ReleaseCandidate (str ''55'') (str ''V1'') (str ''SM-G960F'')].
              sourceVersion_of p \<noteq> str ''V2''"
    by simp
  have h2: "sourceVersion_of example_candidate = str ''V2''"
    by (simp add: example_candidate_def)
  from first_match_is_selected [OF h1 h2] h1 h2 show ?thesis by simp
qed

subsection \<open>C10: no subcommand\<close>

text \<open>
  Claim C10, as stated, fails: the search is made whatever the subcommand, and when the
  page it returns has no table of the class the script ends, under either library, with
  an IndexError that nothing catches, not with exit status 0.
\<close>

theorem no_subcommand_search_failure:
  "main \<lparr>model = str ''SM-G960F'', command = None\<rparr> (example_world empty_page)
     (init_state Map.empty)
   = (Uncaught IndexError,
      emit (HttpGet (searchURL @ str ''SM-G960F'')) (init_state Map.empty))
   \<and> main \<lparr>model = str ''SM-G960F'', command = None\<rparr>
       ((example_world empty_page)\<lparr>absent_class_matches := True\<rparr>)
       (init_state Map.empty)
   = (Uncaught IndexError,
      emit (HttpGet (searchURL @ str ''SM-G960F'')) (init_state Map.empty))"
  by (simp add: main_def example_quote example_world_def example_defs)

text \<open>
  Claim C10, amended. With the model and no subcommand, when the search request and the
  extraction of the table succeed, the script sends the search GET, prints nothing and
  ends with exit status 0.
\<close>

theorem no_subcommand_exits_0:
  assumes "quote (model a) = Inr q"
      and "session_get w (searchURL @ q) = Inr page"
      and "search_data (absent_class_matches w) page = Inr dataList"
      and "command a = None"
  shows "main a w s = (Exit 0, s\<lparr>events := events s @ [HttpGet (searchURL @ q)]\<rparr>)"
  using assms by (simp add: main_def Let_def emit_def)

theorem no_subcommand_exits_0_witness:
  "quote (model \<lparr>model = str ''SM-G960F'', command = None\<rparr>) = Inr (str ''SM-G960F'')
   \<and> session_get
       (example_world (example_page [example_row blank_class (str '' V2 '') (str ''56'')]))
       (searchURL @ str ''SM-G960F'')
     = Inr (example_page [example_row blank_class (str '' V2 '') (str ''56'')])
   \<and> search_data
       (absent_class_matches
          (example_world (example_page [example_row blank_class (str '' V2 '') (str ''56'')])))
       (example_page [example_row blank_class (str '' V2 '') (str ''56'')])
     = Inr [as_dict example_candidate]
   \<and> command \<lparr>model = str ''SM-G960F'', command = None\<rparr> = None
   \<and> main \<lparr>model = str ''SM-G960F'', command = None\<rparr>
       (example_world (example_page [example_row blank_class (str '' V2 '') (str ''56'')]))
       (init_state Map.empty)
     = (Exit 0,
        (init_state Map.empty)
          \<lparr>events := events (init_state Map.empty) @ [HttpGet (searchURL @ str ''SM-G960F'')]\<rparr>)"
proof -
  have h1: "quote (model \<lparr>model = str ''SM-G960F'', command = None\<rparr>) = Inr (str ''SM-G960F'')"
    by (simp add: example_quote)
  have h2: "session_get
              (example_world (example_page [example_row blank_class (str '' V2 '') (str ''56'')]))
              (searchURL @ str ''SM-G960F'')
            = Inr (example_page [example_row blank_class (str '' V2 '') (str ''56'')])"
    by (simp add: example_world_def)
  have h3: "search_data
              (absent_class_matches
                 (example_world
                    (example_page [example_row blank_class (str '' V2 '') (str ''56'')])))
              (example_page [example_row blank_class (str '' V2 '') (str ''56'')])
            = Inr [as_dict example_candidate]"
    by (rule example_search)
  have h4: "command \<lparr>model = str ''SM-G960F'', command = None\<rparr> = None" by simp
  from no_subcommand_exits_0 [OF h1 h2 h3 h4] h1 h2 h3 h4 show ?thesis by blast
qed

end
